theory Spec2Isabelle
  imports
    Complex_Main
    "HOL-Library.Sublist"
    "HOL-Library.Char_ord"
    "HOL-Library.List_Lexorder"
    "HOL-Library.Product_Lexorder"
begin

section \<open>Python strings\<close>

text \<open>
  A Python \<open>str\<close> is modelled as a HOL \<open>string\<close>. The model covers ASCII text: the
  character classes below are those of Python restricted to code points below 128, and
  a character outside ASCII counts as neither whitespace nor digit and is left alone by
  \<open>lower\<close>.
\<close>

definition py_isspace :: "char \<Rightarrow> bool" where
  \<comment> \<open>the ASCII code points that \<open>str.strip()\<close> removes: TAB, LF, VT, FF, CR, FS, GS, RS, US, space\<close>
  "py_isspace c = (let n = (of_char c :: nat) in (9 \<le> n \<and> n \<le> 13) \<or> (28 \<le> n \<and> n \<le> 32))"

definition py_isdigit_char :: "char \<Rightarrow> bool" where
  "py_isdigit_char c = (let n = (of_char c :: nat) in 48 \<le> n \<and> n \<le> 57)"

definition py_lower_char :: "char \<Rightarrow> char" where
  "py_lower_char c =
     (let n = (of_char c :: nat) in if 65 \<le> n \<and> n \<le> 90 then char_of (n + 32) else c)"

definition py_lower :: "string \<Rightarrow> string" where
  "py_lower s = map py_lower_char s"

definition py_strip :: "string \<Rightarrow> string" where
  "py_strip s = rev (dropWhile py_isspace (rev (dropWhile py_isspace s)))"

definition py_isdigit :: "string \<Rightarrow> bool" where
  \<comment> \<open>\<open>str.isdigit()\<close>: false on the empty string\<close>
  "py_isdigit s = (s \<noteq> [] \<and> list_all py_isdigit_char s)"

definition py_any_digit :: "string \<Rightarrow> bool" where
  \<comment> \<open>\<open>any(char.isdigit() for char in s)\<close>\<close>
  "py_any_digit s = list_ex py_isdigit_char s"

definition py_startswith :: "string \<Rightarrow> string \<Rightarrow> bool" where
  "py_startswith s p = (take (length p) s = p)"

definition py_slice_from_to_end3 :: "nat \<Rightarrow> string \<Rightarrow> string" where
  \<comment> \<open>\<open>s[k:-3]\<close>: the stop index \<open>len(s) - 3\<close> is clipped at 0, the start index at \<open>len(s)\<close>\<close>
  "py_slice_from_to_end3 k s = drop k (take (length s - 3) s)"

fun py_in :: "string \<Rightarrow> string \<Rightarrow> bool" where
  \<comment> \<open>\<open>p in s\<close> on strings: \<open>p\<close> occurs in \<open>s\<close> as a contiguous substring\<close>
  "py_in p [] = (p = [])"
| "py_in p (c # cs) = (py_startswith (c # cs) p \<or> py_in p cs)"

section \<open>Code-fence stripping of the extractor\<close>

definition strip_code_fence :: "string \<Rightarrow> string" where
  \<comment> \<open>\<open>LocationExtractionTool._run\<close> (after \<open>.strip()\<close>) and
      \<open>MCPNewsLocationClient._parse_location_response\<close>: the same two branches\<close>
  "strip_code_fence content =
     (if py_startswith content ''```json'' then py_slice_from_to_end3 7 content
      else if py_startswith content ''```'' then py_slice_from_to_end3 3 content
      else content)"

definition clean_extractor_response :: "string \<Rightarrow> string" where
  \<comment> \<open>\<open>content = response.content[0].text.strip()\<close>, then the fence stripping\<close>
  "clean_extractor_response text = strip_code_fence (py_strip text)"

section \<open>External services\<close>

text \<open>
  The language model, the geocoding service and the JSON parser are outside the
  repository: they are parameters of the model. A service that raises is a value of its
  reply type. The geocoder and the summarising model take the position of the current
  candidate as well, so that a service may answer the same query differently at
  different moments of one run.
\<close>

datatype py_exception =
    KeyError string
  | JSONDecodeError
  | AttributeError string
  | ValueError string

datatype geocode_reply =
    Found real real string   \<comment> \<open>\<open>result.latitude\<close>, \<open>result.longitude\<close>, \<open>result.address\<close>\<close>
  | NotFound                 \<comment> \<open>\<open>geolocator.geocode\<close> returned \<open>None\<close>\<close>
  | GeocoderRaises string    \<comment> \<open>\<open>geolocator.geocode\<close> raised; the string is \<open>str(e)\<close>\<close>

record json_location =
  \<comment> \<open>one object of the parsed JSON array; \<open>None\<close> is an absent key\<close>
  j_location :: "string option"
  j_type :: "string option"
  j_confidence :: "string option"
  j_context :: "string option"

record services =
  llm_extract :: "string \<Rightarrow> string + string"
    \<comment> \<open>article text to \<open>Inr\<close> the response text, or \<open>Inl (str e)\<close> when the call raises\<close>
  json_loads :: "string \<Rightarrow> json_location list option"
    \<comment> \<open>\<open>None\<close> when \<open>json.loads\<close> raises\<close>
  geocode :: "nat \<Rightarrow> string \<Rightarrow> geocode_reply"
  llm_summary :: "nat \<Rightarrow> string \<Rightarrow> string \<Rightarrow> string \<Rightarrow> string option"
    \<comment> \<open>location, context, article excerpt to the response text; \<open>None\<close> when the call raises\<close>
  init_failure :: "string option"
    \<comment> \<open>\<open>Some (str e)\<close> when \<open>NewsLocationMappingCrew()\<close> raises in \<open>initialize_systems\<close>\<close>

section \<open>The crew pipeline (agents/location_agents.py)\<close>

record LocationData =
  name :: string
  type :: string
  confidence :: string
  "context" :: string
  latitude :: "real option"
  longitude :: "real option"
  full_address :: "string option"
  event_summary :: "string option"

definition location_extractor :: "services \<Rightarrow> string \<Rightarrow> string" where
  \<comment> \<open>\<open>LocationExtractionTool._run\<close>\<close>
  "location_extractor svc text =
     (case llm_extract svc text of
        Inr response \<Rightarrow> clean_extractor_response response
      | Inl e \<Rightarrow> ''Error extracting locations: '' @ e)"

datatype geocode_data = GeoSuccess real real string | GeoFailure

definition geocoding_tool :: "services \<Rightarrow> nat \<Rightarrow> string \<Rightarrow> geocode_data" where
  \<comment> \<open>\<open>GeocodingTool._run\<close> followed by \<open>json.loads\<close> of its reply: \<open>success\<close> is true
      only when the service found the place\<close>
  "geocoding_tool svc i location_name =
     (case geocode svc i location_name of
        Found la lo addr \<Rightarrow> GeoSuccess la lo addr
      | NotFound \<Rightarrow> GeoFailure
      | GeocoderRaises e \<Rightarrow> GeoFailure)"

definition event_summarizer :: "services \<Rightarrow> nat \<Rightarrow> string \<Rightarrow> string \<Rightarrow> string \<Rightarrow> string" where
  \<comment> \<open>\<open>EventSummarizationTool._run\<close>\<close>
  "event_summarizer svc i location ctx full_article =
     (case llm_summary svc i location ctx (take 2000 full_article) of
        Some text \<Rightarrow> py_strip text
      | None \<Rightarrow> ''Events at '' @ location @ '': '' @ take 100 ctx @ ''...'')"

fun process_loop ::
  "services \<Rightarrow> string \<Rightarrow> nat \<Rightarrow> json_location list \<Rightarrow> LocationData list
     \<Rightarrow> py_exception + LocationData list" where
  \<comment> \<open>the \<open>for loc in locations\<close> loop of \<open>extract_and_process_locations\<close>;
      \<open>location_data\<close> is the accumulator, a missing key raises \<open>KeyError\<close>\<close>
  "process_loop svc article_text i [] location_data = Inr location_data"
| "process_loop svc article_text i (loc # rest) location_data =
     (case j_location loc of
        None \<Rightarrow> Inl (KeyError ''location'')
      | Some nm \<Rightarrow>
         (case geocoding_tool svc i nm of
            GeoFailure \<Rightarrow> process_loop svc article_text (Suc i) rest location_data
          | GeoSuccess la lo addr \<Rightarrow>
             (case j_context loc of
                None \<Rightarrow> Inl (KeyError ''context'')
              | Some ctx \<Rightarrow>
                 (case j_type loc of
                    None \<Rightarrow> Inl (KeyError ''type'')
                  | Some ty \<Rightarrow>
                     (case j_confidence loc of
                        None \<Rightarrow> Inl (KeyError ''confidence'')
                      | Some conf \<Rightarrow>
                         process_loop svc article_text (Suc i) rest
                           (location_data @
                            [\<lparr> name = nm, type = ty, confidence = conf, context = ctx,
                               latitude = Some la, longitude = Some lo,
                               full_address = Some addr,
                               event_summary =
                                 Some (event_summarizer svc i nm ctx article_text) \<rparr>]))))))"

definition extract_and_process_locations :: "services \<Rightarrow> string \<Rightarrow> LocationData list" where
  \<comment> \<open>one \<open>try\<close> around the whole body: any exception gives \<open>[]\<close>\<close>
  "extract_and_process_locations svc article_text =
     (case json_loads svc (location_extractor svc article_text) of
        None \<Rightarrow> []
      | Some locations \<Rightarrow>
         (case process_loop svc article_text 0 locations [] of
            Inl e \<Rightarrow> []
          | Inr location_data \<Rightarrow> location_data))"

section \<open>The orchestrator (src/app.py, process_article_sync)\<close>

record location_dict =
  \<comment> \<open>the dictionary built for each kept location; the fields are its keys\<close>
  dict_name :: string
  dict_type :: string
  dict_confidence :: string
  dict_context :: string
  dict_latitude :: "real option"
  dict_longitude :: "real option"
  dict_full_address :: string
  dict_event_summary :: string

datatype notice =
    TooShortWarning          \<comment> \<open>\<open>st.warning\<close>: text is too short for meaningful location analysis\<close>
  | TruncatedInfo            \<comment> \<open>\<open>st.info\<close>: text was truncated to 10,000 characters\<close>
  | TopFiftyInfo nat         \<comment> \<open>\<open>st.info\<close>: found n locations, showing top 50\<close>
  | InitError string         \<comment> \<open>\<open>st.error\<close> of \<open>initialize_systems\<close>\<close>
  | ProcessingError string   \<comment> \<open>\<open>st.error\<close>: \<open>Processing error: \<close> followed by \<open>str(e)\<close>\<close>
  | ApiKeyHint
  | TimeoutHint
  | RateLimitHint

record outcome =
  result :: "location_dict list"    \<comment> \<open>the returned list\<close>
  notices :: "notice list"          \<comment> \<open>what the caller is shown, in order\<close>
  crew_inputs :: "string list"      \<comment> \<open>the texts \<open>extract_and_process_locations\<close> was called on\<close>

definition non_location_words :: "string list" where
  "non_location_words =
     [''the'', ''and'', ''or'', ''but'', ''in'', ''on'', ''at'', ''to'', ''for'', ''of'', ''with'', ''by'',
      ''from'', ''up'', ''about'', ''into'', ''through'', ''during'', ''before'', ''after'',
      ''above'', ''below'', ''between'', ''among'', ''through'', ''during'', ''before'',
      ''after'', ''above'', ''below'', ''up'', ''down'', ''out'', ''off'', ''over'', ''under'',
      ''again'', ''further'', ''then'', ''once'', ''here'', ''there'', ''when'', ''where'',
      ''why'', ''how'', ''all'', ''any'', ''both'', ''each'', ''few'', ''more'', ''most'',
      ''other'', ''some'', ''such'', ''no'', ''nor'', ''not'', ''only'', ''own'', ''same'',
      ''so'', ''than'', ''too'', ''very'', ''can'', ''will'', ''just'', ''should'', ''now'']"

definition location_key :: "LocationData \<Rightarrow> string" where
  \<comment> \<open>the f-string of \<open>loc.name.lower()\<close>, an underscore and \<open>loc.type\<close>\<close>
  "location_key loc = py_lower (name loc) @ ''_'' @ type loc"

definition make_location_dict :: "LocationData \<Rightarrow> location_dict" where
  \<comment> \<open>an empty string is falsy, so \<open>x if x else d\<close> replaces it by the default\<close>
  "make_location_dict loc =
     \<lparr> dict_name = py_strip (name loc),
       dict_type = (if type loc \<noteq> [] then type loc else ''unknown''),
       dict_confidence = (if confidence loc \<noteq> [] then confidence loc else ''medium''),
       dict_context = context loc,
       dict_latitude = latitude loc,
       dict_longitude = longitude loc,
       dict_full_address = (case full_address loc of None \<Rightarrow> [] | Some a \<Rightarrow> a),
       dict_event_summary = (case event_summary loc of None \<Rightarrow> [] | Some e \<Rightarrow> e) \<rparr>"

fun convert_loop ::
  "LocationData list \<Rightarrow> location_dict list \<Rightarrow> string set \<Rightarrow> location_dict list" where
  \<comment> \<open>the \<open>for loc in locations_data\<close> loop: \<open>locations\<close> and \<open>seen_locations\<close> are the
      accumulators, each \<open>continue\<close> goes on with both unchanged\<close>
  "convert_loop [] locations seen_locations = locations"
| "convert_loop (loc # rest) locations seen_locations =
     (if location_key loc \<in> seen_locations then convert_loop rest locations seen_locations
      else if name loc = [] \<or> length (py_strip (name loc)) < 2
        then convert_loop rest locations seen_locations
      else if py_strip (py_lower (name loc)) \<in> set non_location_words
        then convert_loop rest locations seen_locations
      else if py_isdigit (py_strip (name loc)) \<or> (py_any_digit (name loc) \<and> length (name loc) < 5)
        then convert_loop rest locations seen_locations
      else convert_loop rest (locations @ [make_location_dict loc])
             (insert (location_key loc) seen_locations))"

definition py_truthy_float :: "real option \<Rightarrow> bool" where
  \<comment> \<open>truth value of \<open>loc.get('latitude')\<close>: \<open>None\<close> and \<open>0.0\<close> are both falsy\<close>
  "py_truthy_float v = (case v of None \<Rightarrow> False | Some x \<Rightarrow> x \<noteq> 0)"

definition confidence_order :: "string \<Rightarrow> nat option" where
  "confidence_order c =
     (if c = ''high'' then Some 3 else if c = ''medium'' then Some 2
      else if c = ''low'' then Some 1 else None)"

definition sort_key :: "location_dict \<Rightarrow> nat \<times> nat \<times> string" where
  "sort_key loc =
     (let has_coords = (if py_truthy_float (dict_latitude loc) \<and> py_truthy_float (dict_longitude loc)
                        then 1 else 0);
          confidence_score = (case confidence_order (dict_confidence loc) of
                                Some n \<Rightarrow> n | None \<Rightarrow> 2)
      in (has_coords, confidence_score, dict_name loc))"

definition py_sort_reverse :: "('a \<Rightarrow> 'k::linorder) \<Rightarrow> 'a list \<Rightarrow> 'a list" where
  \<comment> \<open>\<open>list.sort(key=f, reverse=True)\<close>: descending, and stable (equal keys keep their
      original order), which is a stable ascending sort of the reversed list, reversed\<close>
  "py_sort_reverse f xs = rev (List.sort_key f (rev xs))"

definition error_notices :: "string \<Rightarrow> notice list" where
  \<comment> \<open>the \<open>except Exception as e\<close> handler; the argument is \<open>str(e)\<close>\<close>
  "error_notices e =
     ProcessingError e #
     (if py_in ''API'' e \<or> py_in ''key'' (py_lower e) then [ApiKeyHint]
      else if py_in ''timeout'' (py_lower e) then [TimeoutHint]
      else if py_in ''rate limit'' (py_lower e) then [RateLimitHint]
      else [])"

definition none_type_message :: string where
  \<comment> \<open>\<open>str(e)\<close> of the \<open>AttributeError\<close> raised by a method call on \<open>None\<close>\<close>
  "none_type_message =
     [CHR 0x27] @ ''NoneType'' @ [CHR 0x27] @ '' object has no attribute '' @
     [CHR 0x27] @ ''extract_and_process_locations'' @ [CHR 0x27]"

definition process_article_sync :: "services \<Rightarrow> string \<Rightarrow> outcome" where
  "process_article_sync svc article_text =
     (if article_text = [] \<or> py_strip article_text = []
        then \<lparr> result = [], notices = [], crew_inputs = [] \<rparr>
      else if length (py_strip article_text) < 10
        then \<lparr> result = [], notices = [TooShortWarning], crew_inputs = [] \<rparr>
      else
        let truncated = (10000 < length article_text);
            article_text' = (if truncated then take 10000 article_text else article_text);
            n1 = (if truncated then [TruncatedInfo] else [])
        in (case init_failure svc of
              Some e \<Rightarrow>
                \<comment> \<open>\<open>crew_system\<close> is \<open>None\<close>: the method call raises \<open>AttributeError\<close>\<close>
                \<lparr> result = [],
                  notices = n1 @ [InitError e] @ error_notices none_type_message,
                  crew_inputs = [] \<rparr>
            | None \<Rightarrow>
                let locations_data = extract_and_process_locations svc article_text';
                    locations = convert_loop locations_data [] {};
                    sorted_locations = py_sort_reverse sort_key locations
                in if 50 < length sorted_locations
                   then \<lparr> result = take 50 sorted_locations,
                          notices = n1 @ [TopFiftyInfo (length sorted_locations)],
                          crew_inputs = [article_text'] \<rparr>
                   else \<lparr> result = sorted_locations, notices = n1,
                          crew_inputs = [article_text'] \<rparr>))"

section \<open>The session-aware variant (src/mcp_integration.py)\<close>

record mcp_location =
  \<comment> \<open>a validated dictionary of the extractor: \<open>location\<close> is always there
      (\<open>_parse_location_response\<close> keeps only dictionaries with that key), \<open>None\<close> is an
      absent key\<close>
  location :: string
  standardized_name :: "string option"
  loc_type :: "string option"
  loc_context :: "string option"
  coordinates_hint :: "string option"
  related_locations :: "string list option"

record geocoded_location =
  \<comment> \<open>the dictionary \<open>{**location, 'latitude': ..., ...}\<close>\<close>
  source_location :: mcp_location
  geo_latitude :: real
  geo_longitude :: real
  geo_full_address :: string
  geocoding_method :: string
  geocoding_confidence :: string

definition primary_query :: "mcp_location \<Rightarrow> string" where
  \<comment> \<open>the query string built by \<open>_geocode_with_context\<close>\<close>
  "primary_query loc =
     (case standardized_name loc of None \<Rightarrow> location loc | Some s \<Rightarrow> s) @
     (case coordinates_hint loc of
        None \<Rightarrow> []
      | Some h \<Rightarrow> if h \<noteq> [] then '' '' @ h else []) @
     (case related_locations loc of
        None \<Rightarrow> []
      | Some rs \<Rightarrow> concat (map (\<lambda>related. '' near '' @ related) (take 2 rs)))"

definition geocode_with_context ::
  "(string \<Rightarrow> geocode_reply) \<Rightarrow> mcp_location \<Rightarrow> geocoded_location option" where
  "geocode_with_context geo loc =
     (case geo (primary_query loc) of
        Found la lo addr \<Rightarrow>
          Some \<lparr> source_location = loc, geo_latitude = la, geo_longitude = lo,
                 geo_full_address = addr, geocoding_method = ''primary'',
                 geocoding_confidence = ''high'' \<rparr>
      | NotFound \<Rightarrow> None
      | GeocoderRaises e \<Rightarrow> None)"

definition fallback_strategies :: "mcp_location \<Rightarrow> string list" where
  \<comment> \<open>the list \<open>fallback_strategies\<close> of \<open>_geocode_with_fallbacks\<close>, after the
      \<open>related_locations[:1]\<close> loop has appended to it\<close>
  "fallback_strategies loc =
     [location loc,
      (case standardized_name loc of None \<Rightarrow> location loc | Some s \<Rightarrow> s),
      location loc @ '', '' @ (case loc_type loc of None \<Rightarrow> ''place'' | Some t \<Rightarrow> t)] @
     (case related_locations loc of
        None \<Rightarrow> []
      | Some rs \<Rightarrow> map (\<lambda>related. location loc @ '', '' @ related) (take 1 rs))"

fun try_strategies ::
  "(nat \<Rightarrow> string \<Rightarrow> geocode_reply) \<Rightarrow> mcp_location \<Rightarrow> nat \<Rightarrow> string list \<Rightarrow> string list
     \<Rightarrow> geocoded_location option \<times> string list" where
  \<comment> \<open>the \<open>for strategy in fallback_strategies\<close> loop; the last argument logs the
      queries sent to the geocoder, and is returned beside the result\<close>
  "try_strategies geo loc i [] asked = (None, asked)"
| "try_strategies geo loc i (strategy # rest) asked =
     (case geo i strategy of
        Found la lo addr \<Rightarrow>
          (Some \<lparr> source_location = loc, geo_latitude = la, geo_longitude = lo,
                  geo_full_address = addr, geocoding_method = ''fallback'',
                  geocoding_confidence = ''medium'' \<rparr>,
           asked @ [strategy])
      | NotFound \<Rightarrow> try_strategies geo loc (Suc i) rest (asked @ [strategy])
      | GeocoderRaises e \<Rightarrow> try_strategies geo loc (Suc i) rest (asked @ [strategy]))"

definition geocode_with_fallbacks ::
  "(nat \<Rightarrow> string \<Rightarrow> geocode_reply) \<Rightarrow> mcp_location
     \<Rightarrow> geocoded_location option \<times> string list" where
  "geocode_with_fallbacks geo loc = try_strategies geo loc 0 (fallback_strategies loc) []"

record mcp_geocoder =
  \<comment> \<open>the geocoding service as the two helpers see it while the candidate at a given
      position is processed: the primary query, and the numbered fallback queries\<close>
  primary_service :: "nat \<Rightarrow> string \<Rightarrow> geocode_reply"
  fallback_service :: "nat \<Rightarrow> nat \<Rightarrow> string \<Rightarrow> geocode_reply"

fun geocoding_loop ::
  "mcp_geocoder \<Rightarrow> nat \<Rightarrow> mcp_location list \<Rightarrow> geocoded_location list
     \<Rightarrow> geocoded_location list" where
  \<comment> \<open>the \<open>for location in locations\<close> loop of \<open>intelligent_geocoding\<close>\<close>
  "geocoding_loop g i [] geocoded_locations = geocoded_locations"
| "geocoding_loop g i (loc # rest) geocoded_locations =
     (case geocode_with_context (primary_service g i) loc of
        Some geocoded \<Rightarrow> geocoding_loop g (Suc i) rest (geocoded_locations @ [geocoded])
      | None \<Rightarrow>
         (case fst (geocode_with_fallbacks (fallback_service g i) loc) of
            Some fallback_geocoded \<Rightarrow>
              geocoding_loop g (Suc i) rest (geocoded_locations @ [fallback_geocoded])
          | None \<Rightarrow> geocoding_loop g (Suc i) rest geocoded_locations))"

definition intelligent_geocoding ::
  "bool \<Rightarrow> mcp_geocoder \<Rightarrow> mcp_location list \<Rightarrow> py_exception + geocoded_location list" where
  \<comment> \<open>the first argument says whether the session exists; without it the method raises\<close>
  "intelligent_geocoding session_found g locations =
     (if \<not> session_found then Inl (ValueError ''No active session found'')
      else Inr (geocoding_loop g 0 locations []))"

definition generate_enhanced_summary ::
  "(mcp_location \<Rightarrow> string \<Rightarrow> string option) \<Rightarrow> mcp_location \<Rightarrow> string \<Rightarrow> string" where
  \<comment> \<open>\<open>_generate_enhanced_summary\<close>: the model sees the location and the first 1500
      characters of the article, and answers \<open>None\<close> when the call raises\<close>
  "generate_enhanced_summary claude loc article_content =
     (case claude loc (take 1500 article_content) of
        Some response \<Rightarrow> py_strip response
      | None \<Rightarrow>
          ''Events at '' @ location loc @ '': '' @
          (case loc_context loc of None \<Rightarrow> ''Information available in article'' | Some c \<Rightarrow> c))"

section \<open>Vocabulary of the properties\<close>

definition is_hit :: "geocode_reply \<Rightarrow> bool" where
  "is_hit r = (case r of Found la lo addr \<Rightarrow> True | NotFound \<Rightarrow> False | GeocoderRaises e \<Rightarrow> False)"

definition fallback_hit :: "mcp_location \<Rightarrow> real \<Rightarrow> real \<Rightarrow> string \<Rightarrow> geocoded_location" where
  "fallback_hit loc la lo addr =
     \<lparr> source_location = loc, geo_latitude = la, geo_longitude = lo,
       geo_full_address = addr, geocoding_method = ''fallback'',
       geocoding_confidence = ''medium'' \<rparr>"

definition paris :: mcp_location where
  "paris = \<lparr> location = ''Paris'', standardized_name = Some ''Paris, France'',
     loc_type = Some ''city'', loc_context = None, coordinates_hint = None,
     related_locations = Some [''France'', ''Europe''] \<rparr>"

definition only_typed :: "nat \<Rightarrow> string \<Rightarrow> geocode_reply" where
  "only_typed i q = (if q = ''Paris, city'' then Found 48 2 ''Paris, France'' else NotFound)"

definition long_context :: string where
  "long_context =
     ''Delegates from forty countries met in Paris on Monday to discuss the new climate '' @
     ''agreement and its funding, officials said.''"

definition paris_talks :: mcp_location where
  "paris_talks = \<lparr> location = ''Paris'', standardized_name = None,
     loc_type = Some ''city'', loc_context = Some long_context, coordinates_hint = None,
     related_locations = None \<rparr>"

definition failing_claude :: "mcp_location \<Rightarrow> string \<Rightarrow> string option" where
  "failing_claude loc excerpt = None"

definition paris_candidate :: json_location where
  "paris_candidate = \<lparr> j_location = Some ''Paris'', j_type = Some ''city'',
     j_confidence = Some ''high'', j_context = Some long_context \<rparr>"

definition summary_down_services :: services where
  "summary_down_services =
     \<lparr> llm_extract = (\<lambda>text. Inr ''[]''),
       json_loads = (\<lambda>s. Some [paris_candidate]),
       geocode = (\<lambda>i q. Found 48 2 ''Paris, France''),
       llm_summary = (\<lambda>i nm ctx excerpt. None),
       init_failure = None \<rparr>"

definition dropped_by_post_filter :: "string \<Rightarrow> bool" where
  "dropped_by_post_filter nm =
     (length (py_strip nm) < 2 \<or>
      py_lower (py_strip nm) \<in> set non_location_words \<or>
      py_isdigit (py_strip nm) \<or>
      (py_any_digit nm \<and> length nm < 5))"




definition atlantis_candidate :: json_location where
  "atlantis_candidate = \<lparr> j_location = Some ''Atlantis'', j_type = Some ''city'',
     j_confidence = Some ''low'', j_context = Some ''the lost city of Atlantis'' \<rparr>"

definition paris_only_services :: services where
  "paris_only_services =
     \<lparr> llm_extract = (\<lambda>text. Inr ''[]''),
       json_loads = (\<lambda>s. Some [atlantis_candidate, paris_candidate]),
       geocode = (\<lambda>i q. if q = ''Paris'' then Found 48 2 ''Paris, France'' else NotFound),
       llm_summary = (\<lambda>i nm ctx excerpt. Some ''Delegates met.''),
       init_failure = None \<rparr>"

definition silent_geocoder :: mcp_geocoder where
  "silent_geocoder = \<lparr> primary_service = (\<lambda>i q. NotFound),
                        fallback_service = (\<lambda>i j q. NotFound) \<rparr>"

definition town_candidate :: "nat \<Rightarrow> json_location" where
  "town_candidate k = \<lparr> j_location = Some (''Town '' @ replicate (Suc k) (CHR ''a'')),
     j_type = Some ''city'', j_confidence = Some ''medium'', j_context = Some ''a town'' \<rparr>"

definition crowd_services :: services where
  "crowd_services =
     \<lparr> llm_extract = (\<lambda>text. Inr ''[]''),
       json_loads = (\<lambda>s. Some (map town_candidate [0..<51])),
       geocode = (\<lambda>i q. Found 48 2 ''France''),
       llm_summary = (\<lambda>i nm ctx excerpt. Some ''Nothing happened.''),
       init_failure = None \<rparr>"







definition padded_paris_candidate :: json_location where
  "padded_paris_candidate = \<lparr> j_location = Some '' Paris'', j_type = Some ''city'',
     j_confidence = Some ''high'', j_context = Some ''Talks opened in Paris.'' \<rparr>"

definition padded_services :: services where
  "padded_services =
     summary_down_services \<lparr> json_loads := (\<lambda>s. Some [padded_paris_candidate, paris_candidate]) \<rparr>"

definition output_key :: "location_dict \<Rightarrow> string" where
  \<comment> \<open>the deduplication key as the specification words it, read on an output entry:
      the lower-cased name concatenated with the type\<close>
  "output_key d = py_lower (dict_name d) @ dict_type d"

definition null_island_candidate :: json_location where
  "null_island_candidate = \<lparr> j_location = Some ''Null Island'', j_type = Some ''landmark'',
     j_confidence = Some ''high'', j_context = Some ''a buoy at Null Island'' \<rparr>"

definition low_paris_candidate :: json_location where
  "low_paris_candidate = \<lparr> j_location = Some ''Paris'', j_type = Some ''city'',
     j_confidence = Some ''low'', j_context = Some ''a flight from Paris'' \<rparr>"

definition equator_services :: services where
  "equator_services =
     \<lparr> llm_extract = (\<lambda>text. Inr ''[]''),
       json_loads = (\<lambda>s. Some [null_island_candidate, low_paris_candidate]),
       geocode = (\<lambda>i q. if q = ''Null Island'' then Found 0 0 ''Null Island, Gulf of Guinea''
                          else Found 48 2 ''Paris, France''),
       llm_summary = (\<lambda>i nm ctx excerpt. Some ''Nothing happened.''),
       init_failure = None \<rparr>"

definition claimed_sort_key :: "location_dict \<Rightarrow> nat \<times> nat \<times> string" where
  \<comment> \<open>the composite key as the specification words it: an entry has coordinates when its
      latitude and longitude are not null\<close>
  "claimed_sort_key d =
     ((if dict_latitude d \<noteq> None \<and> dict_longitude d \<noteq> None then 1 else 0),
      (if dict_confidence d = ''high'' then 3 else if dict_confidence d = ''low'' then 1 else 2),
      dict_name d)"

section \<open>Code-fence stripping: round trip and loss\<close>

lemma py_strip_no_ws:
  assumes "s \<noteq> []" "\<not> py_isspace (hd s)" "\<not> py_isspace (last s)"
  shows "py_strip s = s"
proof -
  from assms have a: "dropWhile py_isspace s = s" by (cases s) auto
  from assms have "rev s \<noteq> []" "\<not> py_isspace (hd (rev s))" by (auto simp: hd_rev)
  then have b: "dropWhile py_isspace (rev s) = rev s" by (cases "rev s") auto
  show ?thesis by (simp add: py_strip_def a b)
qed

lemma slice_append:
  "length pre = k \<Longrightarrow> py_slice_from_to_end3 k (pre @ p) = take (length p - 3) p"
proof -
  assume k: "length pre = k"
  have "k + length p - 3 - k = length p - 3" by arith
  then show ?thesis
    unfolding py_slice_from_to_end3_def drop_take using k by simp
qed

lemma fence_json: "strip_code_fence (''```json'' @ p) = take (length p - 3) p"
proof -
  have st: "py_startswith (''```json'' @ p) ''```json''" by (simp add: py_startswith_def)
  have sl: "py_slice_from_to_end3 7 (''```json'' @ p) = take (length p - 3) p"
    by (rule slice_append) simp
  show ?thesis
    unfolding strip_code_fence_def using st sl by presburger
qed

lemma fence_plain:
  "py_startswith r ''```'' \<Longrightarrow> \<not> py_startswith r ''```json'' \<Longrightarrow>
   strip_code_fence r = take (length r - 6) (drop 3 r)"
  by (simp add: strip_code_fence_def py_slice_from_to_end3_def drop_take)

text \<open>
  C10. A response that begins with the json fence loses its first 7 and its last 3
  characters, one that begins with the plain fence its first 3 and its last 3, whatever
  the last 3 characters are. So a payload \<open>s\<close> wrapped in the json fence and a closing
  fence comes back as \<open>s\<close>, in both extractors (the first one strips whitespace before);
  and the response made of the json fence and \<open>[1, 2]\<close>, which does not end with a fence,
  comes back as \<open>[1,\<close>: the last 3 characters of the payload are lost.
\<close>

theorem strip_code_fence_round_trip_and_loss:
  "strip_code_fence (''```json'' @ s @ ''```'') = s \<and>
   clean_extractor_response (''```json'' @ s @ ''```'') = s \<and>
   strip_code_fence (''```json'' @ p) = take (length p - 3) p \<and>
   (py_startswith r ''```'' \<and> \<not> py_startswith r ''```json'' \<longrightarrow>
      strip_code_fence r = take (length r - 6) (drop 3 r)) \<and>
   (py_startswith ''```json[1, 2]'' ''```json'' \<and> \<not> suffix ''```'' ''```json[1, 2]'' \<and>
      strip_code_fence ''```json[1, 2]'' = ''[1,'')"
proof -
  have a: "strip_code_fence (''```json'' @ s @ ''```'') = s"
    using fence_json [of "s @ ''```''"] by simp
  have "py_strip (''```json'' @ s @ ''```'') = ''```json'' @ s @ ''```''"
    by (rule py_strip_no_ws) (simp_all add: py_isspace_def)
  then have b: "clean_extractor_response (''```json'' @ s @ ''```'') = s"
    by (simp only: clean_extractor_response_def a)
  have e: "\<not> suffix ''```'' ''```json[1, 2]''"
    by (simp add: suffix_def append_eq_Cons_conv)
  show ?thesis using a b fence_json fence_plain e
    by (simp add: py_startswith_def)
qed

theorem strip_code_fence_round_trip_and_loss_witness:
  "py_startswith ''```[]```'' ''```'' \<and> \<not> py_startswith ''```[]```'' ''```json'' \<and>
   strip_code_fence ''```[]```'' = ''[]'' \<and> strip_code_fence ''```json[]```'' = ''[]''"
  using strip_code_fence_round_trip_and_loss [of "''[]''" "''[]```''" "''```[]```''"]
  by (simp add: py_startswith_def)

section \<open>Order of the geocoder's fallback queries\<close>

lemma try_strategies_miss:
  "\<not> is_hit (geo i s) \<Longrightarrow>
   try_strategies geo loc i (s # ss) asked = try_strategies geo loc (Suc i) ss (asked @ [s])"
  by (cases "geo i s") (simp_all add: is_hit_def)

lemma try_strategies_hit:
  "is_hit (geo i s) \<Longrightarrow>
   \<exists>la lo addr. geo i s = Found la lo addr \<and>
     try_strategies geo loc i (s # ss) asked = (Some (fallback_hit loc la lo addr), asked @ [s])"
  by (cases "geo i s") (simp_all add: is_hit_def fallback_hit_def)

lemma try_strategies_log:
  "\<exists>k\<le>length ss.
      snd (try_strategies geo loc i ss asked) = asked @ take k ss \<and>
      (\<forall>j. Suc j < k \<longrightarrow> \<not> is_hit (geo (i + j) (ss ! j))) \<and>
      (case fst (try_strategies geo loc i ss asked) of
         None \<Rightarrow> k = length ss \<and> (\<forall>j<k. \<not> is_hit (geo (i + j) (ss ! j)))
       | Some g \<Rightarrow> 0 < k \<and> (\<exists>la lo addr. geo (i + (k - 1)) (ss ! (k - 1)) = Found la lo addr \<and>
                                 g = fallback_hit loc la lo addr))"
proof (induction ss arbitrary: i asked)
  case Nil
  then show ?case by simp
next
  case (Cons s ss)
  show ?case
  proof (cases "is_hit (geo i s)")
    case True
    from try_strategies_hit [of geo i s loc ss asked] True show ?thesis
      by (intro exI [of _ 1]) auto
  next
    case miss: False
    let ?t = "try_strategies geo loc (Suc i) ss (asked @ [s])"
    from Cons.IH [of "Suc i" "asked @ [s]"] obtain k where k: "k \<le> length ss"
      "snd ?t = (asked @ [s]) @ take k ss"
      "\<forall>j. Suc j < k \<longrightarrow> \<not> is_hit (geo (Suc i + j) (ss ! j))"
      "case fst ?t of
         None \<Rightarrow> k = length ss \<and> (\<forall>j<k. \<not> is_hit (geo (Suc i + j) (ss ! j)))
       | Some g \<Rightarrow> 0 < k \<and> (\<exists>la lo addr. geo (Suc i + (k - 1)) (ss ! (k - 1)) = Found la lo addr \<and>
                                 g = fallback_hit loc la lo addr)"
      by blast
    have a: "\<forall>j. Suc j < Suc k \<longrightarrow> \<not> is_hit (geo (i + j) ((s # ss) ! j))"
    proof (intro allI impI)
      fix j assume "Suc j < Suc k"
      then show "\<not> is_hit (geo (i + j) ((s # ss) ! j))"
        using miss k(3) by (cases j) auto
    qed
    have b: "case fst ?t of
         None \<Rightarrow> Suc k = length (s # ss) \<and> (\<forall>j<Suc k. \<not> is_hit (geo (i + j) ((s # ss) ! j)))
       | Some g \<Rightarrow> 0 < Suc k \<and>
           (\<exists>la lo addr. geo (i + (Suc k - 1)) ((s # ss) ! (Suc k - 1)) = Found la lo addr \<and>
                          g = fallback_hit loc la lo addr)"
    proof (cases "fst ?t")
      case None
      with k(4) have kk: "k = length ss" "\<forall>j<k. \<not> is_hit (geo (Suc i + j) (ss ! j))" by auto
      have "\<forall>j<Suc k. \<not> is_hit (geo (i + j) ((s # ss) ! j))"
      proof (intro allI impI)
        fix j assume "j < Suc k"
        then show "\<not> is_hit (geo (i + j) ((s # ss) ! j))"
          using miss kk(2) by (cases j) auto
      qed
      then show ?thesis using None kk(1) by simp
    next
      case (Some g)
      with k(4) obtain la lo addr where "0 < k"
        "geo (Suc i + (k - 1)) (ss ! (k - 1)) = Found la lo addr"
        "g = fallback_hit loc la lo addr" by auto
      then show ?thesis using Some by (cases k) auto
    qed
    have step: "try_strategies geo loc i (s # ss) asked = ?t"
      using miss by (rule try_strategies_miss)
    show ?thesis
      unfolding step using k(1,2) a b by (intro exI [of _ "Suc k"]) simp
  qed
qed

text \<open>
  C3. The fallback queries are, in this order, the raw name, the standardized name (the
  raw name again when there is none), the name followed by a comma and the type
  (\<open>place\<close> when there is none) and, only when the candidate has related locations,
  the name followed by a comma and the first of them. The geocoder is asked a prefix of
  this list: every query before the last one asked was a miss (or raised), and either
  the last one asked is a hit, whose coordinates are returned with the method
  \<open>fallback\<close>, or the whole list was asked, every query missed and \<open>None\<close> is
  returned. Nothing is asked after a hit.
\<close>

theorem geocode_with_fallbacks_order:
  "fallback_strategies loc =
     [location loc,
      (case standardized_name loc of None \<Rightarrow> location loc | Some s \<Rightarrow> s),
      location loc @ '', '' @ (case loc_type loc of None \<Rightarrow> ''place'' | Some t \<Rightarrow> t)] @
     (case related_locations loc of
        None \<Rightarrow> [] | Some [] \<Rightarrow> [] | Some (r # rs) \<Rightarrow> [location loc @ '', '' @ r]) \<and>
   (\<exists>k\<le>length (fallback_strategies loc).
      snd (geocode_with_fallbacks geo loc) = take k (fallback_strategies loc) \<and>
      (\<forall>j. Suc j < k \<longrightarrow> \<not> is_hit (geo j (fallback_strategies loc ! j))) \<and>
      (case fst (geocode_with_fallbacks geo loc) of
         None \<Rightarrow> k = length (fallback_strategies loc) \<and>
                 (\<forall>j<k. \<not> is_hit (geo j (fallback_strategies loc ! j)))
       | Some g \<Rightarrow> 0 < k \<and>
           (\<exists>la lo addr. geo (k - 1) (fallback_strategies loc ! (k - 1)) = Found la lo addr \<and>
                          g = fallback_hit loc la lo addr)))"
proof
  show "fallback_strategies loc =
     [location loc,
      (case standardized_name loc of None \<Rightarrow> location loc | Some s \<Rightarrow> s),
      location loc @ '', '' @ (case loc_type loc of None \<Rightarrow> ''place'' | Some t \<Rightarrow> t)] @
     (case related_locations loc of
        None \<Rightarrow> [] | Some [] \<Rightarrow> [] | Some (r # rs) \<Rightarrow> [location loc @ '', '' @ r])"
    by (simp add: fallback_strategies_def split: option.split list.split)
  show "\<exists>k\<le>length (fallback_strategies loc).
      snd (geocode_with_fallbacks geo loc) = take k (fallback_strategies loc) \<and>
      (\<forall>j. Suc j < k \<longrightarrow> \<not> is_hit (geo j (fallback_strategies loc ! j))) \<and>
      (case fst (geocode_with_fallbacks geo loc) of
         None \<Rightarrow> k = length (fallback_strategies loc) \<and>
                 (\<forall>j<k. \<not> is_hit (geo j (fallback_strategies loc ! j)))
       | Some g \<Rightarrow> 0 < k \<and>
           (\<exists>la lo addr. geo (k - 1) (fallback_strategies loc ! (k - 1)) = Found la lo addr \<and>
                          g = fallback_hit loc la lo addr))"
    using try_strategies_log [of "fallback_strategies loc" geo loc 0 "[]"]
    unfolding geocode_with_fallbacks_def by (simp only: append_Nil add_0)
qed

theorem geocode_with_fallbacks_order_witness:
  "fallback_strategies paris = [''Paris'', ''Paris, France'', ''Paris, city'', ''Paris, France''] \<and>
   geocode_with_fallbacks only_typed paris =
     (Some (fallback_hit paris 48 2 ''Paris, France''), [''Paris'', ''Paris, France'', ''Paris, city'']) \<and>
   geocode_with_fallbacks (\<lambda>i q. NotFound) paris =
     (None, [''Paris'', ''Paris, France'', ''Paris, city'', ''Paris, France''])"
  using geocode_with_fallbacks_order [of paris only_typed]
  by (simp add: geocode_with_fallbacks_def fallback_strategies_def paris_def only_typed_def
      fallback_hit_def)

section \<open>The summarizer's fallback text\<close>

theorem enhanced_summary_not_truncated:
  "failing_claude paris_talks (take 1500 long_context) = None \<and>
   loc_context paris_talks = Some long_context \<and>
   generate_enhanced_summary failing_claude paris_talks long_context =
     ''Events at Paris: '' @ long_context \<and>
   generate_enhanced_summary failing_claude paris_talks long_context \<noteq>
     ''Events at '' @ location paris_talks @ '': '' @ take 100 long_context @ ''...''"
  by (simp add: generate_enhanced_summary_def failing_claude_def paris_talks_def long_context_def)

lemma process_loop_single:
  assumes "geocode svc 0 nm = Found la lo addr"
  shows "process_loop svc article 0
           [\<lparr> j_location = Some nm, j_type = Some ty, j_confidence = Some cf, j_context = Some ctx \<rparr>] [] =
         Inr [\<lparr> name = nm, type = ty, confidence = cf, context = ctx,
                latitude = Some la, longitude = Some lo, full_address = Some addr,
                event_summary = Some (event_summarizer svc 0 nm ctx article) \<rparr>]"
  using assms by (simp add: geocoding_tool_def)

text \<open>
  C4, amended. When the model call of \<open>EventSummarizationTool._run\<close> raises, the tool
  returns \<open>Events at {name}: \<close> followed by the first 100 characters of the context
  and three dots, and this is the \<open>event_summary\<close> of the candidate in the crew
  pipeline. When the model call of \<open>_generate_enhanced_summary\<close> raises, that
  summarizer returns \<open>Events at {name}: \<close> followed by the whole context (or by
  \<open>Information available in article\<close> when the candidate has none), neither truncated
  nor followed by dots.
\<close>

theorem summarizer_fallback:
  "(llm_summary svc i nm ctx (take 2000 article) = None \<longrightarrow>
      event_summarizer svc i nm ctx article =
        ''Events at '' @ nm @ '': '' @ take 100 ctx @ ''...'') \<and>
   (json_loads svc (location_extractor svc article) =
        Some [\<lparr> j_location = Some nm, j_type = Some ty, j_confidence = Some cf,
                 j_context = Some ctx \<rparr>] \<and>
    geocode svc 0 nm = Found la lo addr \<and>
    llm_summary svc 0 nm ctx (take 2000 article) = None \<longrightarrow>
      map event_summary (extract_and_process_locations svc article) =
        [Some (''Events at '' @ nm @ '': '' @ take 100 ctx @ ''...'')]) \<and>
   (claude loc (take 1500 article) = None \<longrightarrow>
      generate_enhanced_summary claude loc article =
        ''Events at '' @ location loc @ '': '' @
        (case loc_context loc of None \<Rightarrow> ''Information available in article'' | Some c \<Rightarrow> c))"
proof (intro conjI impI)
  assume "llm_summary svc i nm ctx (take 2000 article) = None"
  then show "event_summarizer svc i nm ctx article =
        ''Events at '' @ nm @ '': '' @ take 100 ctx @ ''...''"
    by (simp add: event_summarizer_def)
next
  assume a: "json_loads svc (location_extractor svc article) =
        Some [\<lparr> j_location = Some nm, j_type = Some ty, j_confidence = Some cf,
                 j_context = Some ctx \<rparr>] \<and>
    geocode svc 0 nm = Found la lo addr \<and>
    llm_summary svc 0 nm ctx (take 2000 article) = None"
  then have "event_summarizer svc 0 nm ctx article =
        ''Events at '' @ nm @ '': '' @ take 100 ctx @ ''...''"
    by (simp add: event_summarizer_def)
  with a process_loop_single [of svc nm la lo addr article ty cf ctx]
  show "map event_summary (extract_and_process_locations svc article) =
        [Some (''Events at '' @ nm @ '': '' @ take 100 ctx @ ''...'')]"
    by (simp add: extract_and_process_locations_def)
next
  assume "claude loc (take 1500 article) = None"
  then show "generate_enhanced_summary claude loc article =
        ''Events at '' @ location loc @ '': '' @
        (case loc_context loc of None \<Rightarrow> ''Information available in article'' | Some c \<Rightarrow> c)"
    by (simp add: generate_enhanced_summary_def)
qed

theorem summarizer_fallback_witness:
  "event_summarizer summary_down_services 0 ''Paris'' long_context long_context =
     ''Events at Paris: Delegates from forty countries met in Paris on Monday to discuss '' @
     ''the new climate agreement and its f...'' \<and>
   map event_summary (extract_and_process_locations summary_down_services long_context) =
     [Some (''Events at Paris: Delegates from forty countries met in Paris on Monday to discuss '' @
            ''the new climate agreement and its f...'')] \<and>
   generate_enhanced_summary failing_claude paris_talks long_context =
     ''Events at Paris: '' @ long_context"
  using summarizer_fallback [of summary_down_services 0 "''Paris''" long_context long_context
      "''city''" "''high''" 48 2 "''Paris, France''" failing_claude paris_talks]
  by (simp add: summary_down_services_def paris_candidate_def failing_claude_def paris_talks_def
      long_context_def)

section \<open>The conversion loop of the orchestrator\<close>

lemma py_isspace_lower [simp]: "py_isspace (py_lower_char c) = py_isspace c"
proof -
  have "of_char (char_of (of_char c + (32::nat))) = (of_char c + 32 :: nat)"
    if "(of_char c :: nat) \<le> 90"
    using that by (simp add: of_char_of)
  then show ?thesis
    by (auto simp: py_isspace_def py_lower_char_def Let_def)
qed

lemma dropWhile_lower:
  "dropWhile py_isspace (map py_lower_char s) = map py_lower_char (dropWhile py_isspace s)"
  by (induction s) simp_all

lemma py_strip_lower: "py_strip (py_lower s) = py_lower (py_strip s)"
  by (simp add: py_strip_def py_lower_def dropWhile_lower rev_map)

lemma py_strip_empty_short: "nm = [] \<Longrightarrow> length (py_strip nm) < 2"
  by (simp add: py_strip_def)

lemma convert_loop_step:
  "location_key loc \<notin> seen \<Longrightarrow>
   convert_loop (loc # rest) locations seen =
     (if dropped_by_post_filter (name loc) then convert_loop rest locations seen
      else convert_loop rest (locations @ [make_location_dict loc])
             (insert (location_key loc) seen))"
  using py_strip_empty_short [of "name loc"]
  by (auto simp: dropped_by_post_filter_def py_strip_lower)

lemma convert_loop_sources:
  "set (convert_loop locs locations seen) \<subseteq>
     set locations \<union> make_location_dict ` {l \<in> set locs. \<not> dropped_by_post_filter (name l)}"
proof (induction locs arbitrary: locations seen)
  case Nil
  show ?case by simp
next
  case (Cons loc rest)
  show ?case
  proof (cases "location_key loc \<in> seen")
    case True
    then show ?thesis using Cons [of locations seen] by auto
  next
    case False
    show ?thesis
      unfolding convert_loop_step [OF False]
      using Cons [of locations seen]
        Cons [of "locations @ [make_location_dict loc]" "insert (location_key loc) seen"]
      by auto
  qed
qed

lemma set_py_sort_reverse [simp]: "set (py_sort_reverse f xs) = set xs"
  by (simp add: py_sort_reverse_def)

lemma length_py_sort_reverse [simp]: "length (py_sort_reverse f xs) = length xs"
  by (simp add: py_sort_reverse_def)

lemma result_sources:
  "set (result (process_article_sync svc text)) \<subseteq>
     make_location_dict `
       {l \<in> set (extract_and_process_locations svc (take 10000 text)).
          \<not> dropped_by_post_filter (name l)}"
proof -
  have t: "(if 10000 < length text then take 10000 text else text) = take 10000 text"
    by simp
  have "set (take 50 xs) \<subseteq> set xs" for xs :: "location_dict list"
    by (rule set_take_subset)
  then show ?thesis
    using convert_loop_sources [of "extract_and_process_locations svc (take 10000 text)" "[]" "{}"]
    unfolding process_article_sync_def Let_def t
    by (auto split: option.split dest!: in_set_takeD)
qed

section \<open>The post-filter\<close>






section \<open>Candidates the geocoder does not resolve\<close>

lemma process_loop_coords:
  "process_loop svc article i locs acc = Inr out \<Longrightarrow> l \<in> set out \<Longrightarrow>
   l \<in> set acc \<or>
   (\<exists>k la lo addr. geocode svc k (name l) = Found la lo addr \<and>
       latitude l = Some la \<and> longitude l = Some lo)"
proof (induction locs arbitrary: i acc)
  case Nil
  then show ?case by simp
next
  case (Cons loc rest)
  show ?case
  proof (cases "j_location loc")
    case None
    with Cons.prems show ?thesis by simp
  next
    case (Some nm)
    show ?thesis
    proof (cases "geocode svc i nm")
      case (Found la lo addr)
      with Some Cons.prems(1) obtain ctx ty conf where
        k: "j_context loc = Some ctx" "j_type loc = Some ty" "j_confidence loc = Some conf"
        by (auto simp: geocoding_tool_def split: option.splits)
      let ?new = "\<lparr> name = nm, type = ty, confidence = conf, context = ctx,
                    latitude = Some la, longitude = Some lo, full_address = Some addr,
                    event_summary = Some (event_summarizer svc i nm ctx article) \<rparr>"
      from Cons.prems(1) Some Found k
      have "process_loop svc article (Suc i) rest (acc @ [?new]) = Inr out"
        by (simp add: geocoding_tool_def)
      from Cons.IH [OF this Cons.prems(2)] show ?thesis
        using Found by auto
    next
      case NotFound
      with Some Cons.prems(1) have "process_loop svc article (Suc i) rest acc = Inr out"
        by (simp add: geocoding_tool_def)
      from Cons.IH [OF this Cons.prems(2)] show ?thesis .
    next
      case (GeocoderRaises e)
      with Some Cons.prems(1) have "process_loop svc article (Suc i) rest acc = Inr out"
        by (simp add: geocoding_tool_def)
      from Cons.IH [OF this Cons.prems(2)] show ?thesis .
    qed
  qed
qed

lemma extract_coords:
  "l \<in> set (extract_and_process_locations svc article) \<Longrightarrow>
   \<exists>k la lo addr. geocode svc k (name l) = Found la lo addr \<and>
       latitude l = Some la \<and> longitude l = Some lo"
proof -
  assume a: "l \<in> set (extract_and_process_locations svc article)"
  show ?thesis
  proof (cases "json_loads svc (location_extractor svc article)")
    case None
    with a show ?thesis by (simp add: extract_and_process_locations_def)
  next
    case (Some locs)
    show ?thesis
    proof (cases "process_loop svc article 0 locs []")
      case (Inl e)
      with a Some show ?thesis by (simp add: extract_and_process_locations_def)
    next
      case (Inr out)
      with a Some have "l \<in> set out" by (simp add: extract_and_process_locations_def)
      from process_loop_coords [OF Inr this] show ?thesis by simp
    qed
  qed
qed

lemma process_loop_miss:
  "j_location loc = Some nm \<Longrightarrow> \<not> is_hit (geocode svc i nm) \<Longrightarrow>
   process_loop svc article i (loc # rest) acc = process_loop svc article (Suc i) rest acc"
  by (cases "geocode svc i nm") (simp_all add: geocoding_tool_def is_hit_def)

lemma try_strategies_all_miss:
  "(\<forall>j<length ss. \<not> is_hit (geo (i + j) (ss ! j))) \<Longrightarrow>
   try_strategies geo loc i ss asked = (None, asked @ ss)"
proof (induction ss arbitrary: i asked)
  case Nil
  show ?case by simp
next
  case (Cons s ss)
  from Cons.prems have m: "\<not> is_hit (geo i s)" by force
  have "\<forall>j<length ss. \<not> is_hit (geo (Suc i + j) (ss ! j))"
  proof (intro allI impI)
    fix j assume "j < length ss"
    with Cons.prems have "\<not> is_hit (geo (i + Suc j) ((s # ss) ! Suc j))" by force
    then show "\<not> is_hit (geo (Suc i + j) (ss ! j))" by simp
  qed
  from Cons.IH [OF this, of "asked @ [s]"] show ?case
    using try_strategies_miss [of geo i s loc ss asked] m by simp
qed

text \<open>
  C5. Every entry of the orchestrator's output has a latitude and a longitude: every
  \<open>LocationData\<close> of the crew pipeline carries the coordinates of a reply in which the
  geocoder found its name. A candidate for which the geocoding tool reports no success
  (no match, or an exception inside the tool) adds nothing to the list and raises
  nothing. In the session-aware variant, \<open>_geocode_with_fallbacks\<close> returns \<open>None\<close>
  after asking every strategy when all of them miss, and \<open>intelligent_geocoding\<close>
  leaves out a candidate that neither the primary query nor the fallbacks resolve.
\<close>

theorem unresolved_candidates_dropped:
  "(\<forall>d \<in> set (result (process_article_sync svc text)).
      \<exists>la lo. dict_latitude d = Some la \<and> dict_longitude d = Some lo) \<and>
   (\<forall>l \<in> set (extract_and_process_locations svc text).
      \<exists>k la lo addr. geocode svc k (name l) = Found la lo addr \<and>
        latitude l = Some la \<and> longitude l = Some lo) \<and>
   (j_location loc = Some nm \<and> \<not> is_hit (geocode svc i nm) \<longrightarrow>
      process_loop svc text i (loc # rest) acc = process_loop svc text (Suc i) rest acc) \<and>
   ((\<forall>j<length (fallback_strategies m). \<not> is_hit (geo j (fallback_strategies m ! j))) \<longrightarrow>
      geocode_with_fallbacks geo m = (None, fallback_strategies m)) \<and>
   (geocode_with_context (primary_service g i) m = None \<and>
    fst (geocode_with_fallbacks (fallback_service g i) m) = None \<longrightarrow>
      geocoding_loop g i (m # ms) out = geocoding_loop g (Suc i) ms out)"
proof (intro conjI ballI impI)
  fix d assume "d \<in> set (result (process_article_sync svc text))"
  with result_sources [of svc "text"] obtain l where
    l: "d = make_location_dict l" "l \<in> set (extract_and_process_locations svc (take 10000 text))"
    by auto
  from extract_coords [OF l(2)] show "\<exists>la lo. dict_latitude d = Some la \<and> dict_longitude d = Some lo"
    using l(1) by (auto simp: make_location_dict_def)
next
  fix l assume "l \<in> set (extract_and_process_locations svc text)"
  then show "\<exists>k la lo addr. geocode svc k (name l) = Found la lo addr \<and>
        latitude l = Some la \<and> longitude l = Some lo"
    by (rule extract_coords)
next
  assume "j_location loc = Some nm \<and> \<not> is_hit (geocode svc i nm)"
  then show "process_loop svc text i (loc # rest) acc = process_loop svc text (Suc i) rest acc"
    using process_loop_miss by blast
next
  assume "\<forall>j<length (fallback_strategies m). \<not> is_hit (geo j (fallback_strategies m ! j))"
  then show "geocode_with_fallbacks geo m = (None, fallback_strategies m)"
    using try_strategies_all_miss [of "fallback_strategies m" geo 0 m "[]"]
    by (simp add: geocode_with_fallbacks_def)
next
  assume "geocode_with_context (primary_service g i) m = None \<and>
    fst (geocode_with_fallbacks (fallback_service g i) m) = None"
  then show "geocoding_loop g i (m # ms) out = geocoding_loop g (Suc i) ms out"
    by simp
qed

theorem unresolved_candidates_dropped_witness:
  "map (\<lambda>d. (dict_name d, dict_latitude d, dict_longitude d))
     (result (process_article_sync paris_only_services ''Paris and Atlantis'')) =
     [(''Paris'', Some 48, Some 2)] \<and>
   map name (extract_and_process_locations paris_only_services ''Paris and Atlantis'') = [''Paris''] \<and>
   j_location atlantis_candidate = Some ''Atlantis'' \<and>
   \<not> is_hit (geocode paris_only_services 0 ''Atlantis'') \<and>
   geocode_with_fallbacks (fallback_service silent_geocoder 0) paris =
     (None, [''Paris'', ''Paris, France'', ''Paris, city'', ''Paris, France'']) \<and>
   geocode_with_context (primary_service silent_geocoder 0) paris = None \<and>
   intelligent_geocoding True silent_geocoder [paris] = Inr []"
  using unresolved_candidates_dropped [of paris_only_services "''Paris and Atlantis''"
      atlantis_candidate "''Atlantis''" 0 "[paris_candidate]" "[]" paris
      "fallback_service silent_geocoder 0" silent_geocoder "[]" "[]"]
  by (simp add: paris_only_services_def atlantis_candidate_def paris_candidate_def
      silent_geocoder_def paris_def is_hit_def
      process_article_sync_def extract_and_process_locations_def
      geocoding_tool_def event_summarizer_def location_extractor_def location_key_def
      make_location_dict_def py_sort_reverse_def py_strip_def py_isspace_def py_lower_def
      py_lower_char_def py_isdigit_def py_isdigit_char_def py_any_digit_def
      non_location_words_def Let_def
      geocode_with_fallbacks_def fallback_strategies_def geocode_with_context_def
      intelligent_geocoding_def)

section \<open>The cap of 50 entries\<close>

lemma process_loop_all_found:
  assumes "\<And>i q. is_hit (geocode svc i q)"
    and "\<forall>l\<in>set locs. \<exists>nm ty cf ctx. j_location l = Some nm \<and> j_type l = Some ty \<and>
           j_confidence l = Some cf \<and> j_context l = Some ctx"
  shows "\<exists>out. process_loop svc art i locs acc = Inr (acc @ out) \<and>
           map (\<lambda>d. (Some (name d), Some (type d))) out = map (\<lambda>l. (j_location l, j_type l)) locs"
  using assms(2)
proof (induction locs arbitrary: i acc)
  case Nil
  show ?case by simp
next
  case (Cons loc rest)
  from Cons.prems obtain nm ty cf ctx where
    k: "j_location loc = Some nm" "j_type loc = Some ty" "j_confidence loc = Some cf"
       "j_context loc = Some ctx" by auto
  from assms(1) [of i nm] obtain la lo addr where f: "geocode svc i nm = Found la lo addr"
    by (cases "geocode svc i nm") (auto simp: is_hit_def)
  let ?new = "\<lparr> name = nm, type = ty, confidence = cf, context = ctx,
                latitude = Some la, longitude = Some lo, full_address = Some addr,
                event_summary = Some (event_summarizer svc i nm ctx art) \<rparr>"
  from Cons.prems have "\<forall>l\<in>set rest. \<exists>nm ty cf ctx. j_location l = Some nm \<and> j_type l = Some ty \<and>
           j_confidence l = Some cf \<and> j_context l = Some ctx" by simp
  from Cons.IH [OF this, of "Suc i" "acc @ [?new]"] obtain out where
    o: "process_loop svc art (Suc i) rest (acc @ [?new]) = Inr ((acc @ [?new]) @ out)"
       "map (\<lambda>d. (Some (name d), Some (type d))) out = map (\<lambda>l. (j_location l, j_type l)) rest"
    by blast
  have "process_loop svc art i (loc # rest) acc = Inr (acc @ (?new # out))"
    using k f o(1) by (simp add: geocoding_tool_def)
  moreover have "map (\<lambda>d. (Some (name d), Some (type d))) (?new # out) =
      map (\<lambda>l. (j_location l, j_type l)) (loc # rest)"
    using k o(2) by simp
  ultimately show ?case by blast
qed

lemma convert_loop_keeps_all:
  "distinct (map location_key locs) \<Longrightarrow>
   \<forall>l\<in>set locs. location_key l \<notin> seen \<and> \<not> dropped_by_post_filter (name l) \<Longrightarrow>
   convert_loop locs acc seen = acc @ map make_location_dict locs"
proof (induction locs arbitrary: acc seen)
  case Nil
  show ?case by simp
next
  case (Cons loc rest)
  from Cons.prems have a: "location_key loc \<notin> seen" "\<not> dropped_by_post_filter (name loc)"
    by simp_all
  from Cons.prems have r:
    "\<forall>l\<in>set rest. location_key l \<notin> insert (location_key loc) seen \<and>
        \<not> dropped_by_post_filter (name l)"
    by (auto simp: image_iff)
  from Cons.prems have d: "distinct (map location_key rest)" by simp
  have
    "convert_loop rest (acc @ [make_location_dict loc]) (insert (location_key loc) seen) =
       (acc @ [make_location_dict loc]) @ map make_location_dict rest"
    by (rule Cons.IH [OF d r])
  then show ?case
    unfolding convert_loop_step [OF a(1)] using a(2) by simp
qed

lemma town_not_dropped:
  "\<not> dropped_by_post_filter (''Town '' @ replicate (Suc k) (CHR ''a''))"
proof -
  let ?n = "''Town '' @ replicate (Suc k) (CHR ''a'')"
  have s: "py_strip ?n = ?n"
    by (rule py_strip_no_ws) (simp_all add: py_isspace_def)
  have d: "\<not> py_any_digit ?n"
    by (simp add: py_any_digit_def py_isdigit_char_def list_ex_iff)
  have i: "\<not> py_isdigit ?n"
    by (simp add: py_isdigit_def py_isdigit_char_def)
  have w: "py_lower ?n \<notin> set non_location_words"
    by (simp add: py_lower_def py_lower_char_def non_location_words_def)
  show ?thesis
    unfolding dropped_by_post_filter_def s using d i w by simp
qed


lemma lower_T: "py_lower_char (CHR ''T'') = CHR ''t''"
  by code_simp

lemma lower_a: "py_lower_char (CHR ''a'') = CHR ''a''"
  by code_simp

lemma lower_town:
  "py_lower (''Town '' @ replicate n (CHR ''a'')) = ''town '' @ replicate n (CHR ''a'')"
proof -
  have "py_lower ''Town '' = ''town ''" by code_simp
  then show ?thesis by (simp add: py_lower_def lower_a)
qed

lemma crowd_survivors:
  "length (convert_loop (extract_and_process_locations crowd_services article) [] {}) = 51"
proof -
  let ?cands = "map town_candidate [0..<51]"
  have hit: "\<And>i q. is_hit (geocode crowd_services i q)"
    by (simp add: crowd_services_def is_hit_def)
  have full: "\<forall>l\<in>set ?cands. \<exists>nm ty cf ctx. j_location l = Some nm \<and> j_type l = Some ty \<and>
           j_confidence l = Some cf \<and> j_context l = Some ctx"
    by (auto simp: town_candidate_def)
  from process_loop_all_found [of crowd_services ?cands article 0 "[]", OF hit full]
  obtain out where
    o: "process_loop crowd_services article 0 ?cands [] = Inr out"
       "map (\<lambda>d. (Some (name d), Some (type d))) out = map (\<lambda>l. (j_location l, j_type l)) ?cands"
    by auto
  have e: "extract_and_process_locations crowd_services article = out"
    using o(1) by (simp add: extract_and_process_locations_def crowd_services_def)
  from o(2) have len: "length out = 51"
    using length_map [of "\<lambda>d. (Some (name d), Some (type d))" out] by simp
  have nt: "name (out ! j) = ''Town '' @ replicate (Suc j) (CHR ''a'') \<and> type (out ! j) = ''city''"
    if "j < 51" for j
  proof -
    from that len have "map (\<lambda>d. (Some (name d), Some (type d))) out ! j =
        (Some (name (out ! j)), Some (type (out ! j)))" by simp
    moreover from that have "map (\<lambda>l. (j_location l, j_type l)) ?cands ! j =
        (Some (''Town '' @ replicate (Suc j) (CHR ''a'')), Some ''city'')"
      by (simp add: town_candidate_def del: replicate_Suc)
    ultimately show ?thesis using o(2) by simp
  qed
  have key: "location_key (out ! j) = ''town '' @ replicate (Suc j) (CHR ''a'') @ ''_city''"
    if "j < 51" for j
    using nt [OF that] lower_town [of "Suc j"] by (simp add: location_key_def)
  have dist: "distinct (map location_key out)"
  proof (subst distinct_conv_nth, intro allI impI)
    fix i j assume a: "i < length (map location_key out)" "j < length (map location_key out)" "i \<noteq> j"
    then have "length (location_key (out ! i)) \<noteq> length (location_key (out ! j))"
      using key [of i] key [of j] len by simp
    then show "map location_key out ! i \<noteq> map location_key out ! j"
      using a len by auto
  qed
  have keep: "\<forall>l\<in>set out. location_key l \<notin> {} \<and> \<not> dropped_by_post_filter (name l)"
  proof
    fix l assume "l \<in> set out"
    then obtain j where "j < 51" "l = out ! j" using len by (auto simp: in_set_conv_nth)
    then show "location_key l \<notin> {} \<and> \<not> dropped_by_post_filter (name l)"
      using nt [of j] town_not_dropped [of j] by simp
  qed
  from convert_loop_keeps_all [OF dist keep, of "[]"] show ?thesis
    using e len by simp
qed

text \<open>
  C9. The orchestrator returns at most 50 entries, whatever the text and the services.
  When the text is accepted and the systems are initialised, the candidates that
  survive the conversion loop (filtering and deduplication) are sorted; if they are more
  than 50, the first 50 of the sorted list are returned and the caller is told how many
  were found, otherwise the whole sorted list is returned without that notice.
\<close>

theorem output_capped_at_50:
  "length (result (process_article_sync svc text)) \<le> 50 \<and>
   (10 \<le> length (py_strip text) \<and> init_failure svc = None \<longrightarrow>
      (let survivors = convert_loop (extract_and_process_locations svc (take 10000 text)) [] {}
       in (50 < length survivors \<longrightarrow>
             result (process_article_sync svc text) = take 50 (py_sort_reverse sort_key survivors) \<and>
             TopFiftyInfo (length survivors) \<in> set (notices (process_article_sync svc text))) \<and>
          (length survivors \<le> 50 \<longrightarrow>
             result (process_article_sync svc text) = py_sort_reverse sort_key survivors \<and>
             (\<forall>n. TopFiftyInfo n \<notin> set (notices (process_article_sync svc text))))))"
proof
  show "length (result (process_article_sync svc text)) \<le> 50"
    by (simp add: process_article_sync_def Let_def split: option.split)
next
  have t: "(if 10000 < length text then take 10000 text else text) = take 10000 text"
    by simp
  have ne1: "py_strip text \<noteq> []" if "10 \<le> length (py_strip text)"
    using that by auto
  have ne2: "text \<noteq> []" if "10 \<le> length (py_strip text)"
    using that by (cases "text") (simp_all add: py_strip_def)
  note ne = ne1 ne2
  show "10 \<le> length (py_strip text) \<and> init_failure svc = None \<longrightarrow>
      (let survivors = convert_loop (extract_and_process_locations svc (take 10000 text)) [] {}
       in (50 < length survivors \<longrightarrow>
             result (process_article_sync svc text) = take 50 (py_sort_reverse sort_key survivors) \<and>
             TopFiftyInfo (length survivors) \<in> set (notices (process_article_sync svc text))) \<and>
          (length survivors \<le> 50 \<longrightarrow>
             result (process_article_sync svc text) = py_sort_reverse sort_key survivors \<and>
             (\<forall>n. TopFiftyInfo n \<notin> set (notices (process_article_sync svc text)))))"
    using ne unfolding process_article_sync_def Let_def t by auto
qed

theorem output_capped_at_50_witness:
  "10 \<le> length (py_strip ''An article about many towns.'') \<and>
   init_failure crowd_services = None \<and>
   length (convert_loop (extract_and_process_locations crowd_services
             (take 10000 ''An article about many towns.'')) [] {}) = 51 \<and>
   length (result (process_article_sync crowd_services ''An article about many towns.'')) = 50 \<and>
   TopFiftyInfo 51 \<in> set (notices (process_article_sync crowd_services ''An article about many towns.''))"
proof -
  have a: "10 \<le> length (py_strip ''An article about many towns.'')"
    by (simp add: py_strip_def py_isspace_def)
  have b: "init_failure crowd_services = None" by (simp add: crowd_services_def)
  note c = crowd_survivors [of "take 10000 ''An article about many towns.''"]
  from output_capped_at_50 [of crowd_services "''An article about many towns.''"] a b c
  show ?thesis by (simp add: Let_def)
qed

section \<open>Validation of the input text\<close>





section \<open>Failures while an article is processed\<close>






section \<open>Deduplication and order of the output\<close>

lemma lower_names:
  "py_lower ''Paris'' = ''paris''"
  "py_lower '' Paris'' = '' paris''"
  "py_lower ''Null Island'' = ''null island''"
  by code_simp+

text \<open>
  C1, at the input where the code departs from it. The key that the loop records is
  computed from the name as given, while the entry it appends carries the trimmed name
  (and \<open>unknown\<close> in place of an empty type). Two candidates of type \<open>city\<close> named
  \<open>Paris\<close>, the first with a leading space, have different recorded keys, so both are
  kept: the output holds two entries with the name \<open>Paris\<close> and the type \<open>city\<close>,
  that is two entries with the same deduplication key.
\<close>

theorem padded_name_emitted_twice:
  "map (\<lambda>d. (dict_name d, dict_type d))
     (result (process_article_sync padded_services ''Talks opened in Paris.'')) =
     [(''Paris'', ''city''), (''Paris'', ''city'')] \<and>
   map output_key (result (process_article_sync padded_services ''Talks opened in Paris.'')) =
     [''pariscity'', ''pariscity'']"
  by (simp add: padded_services_def summary_down_services_def paris_candidate_def
      padded_paris_candidate_def output_key_def
      process_article_sync_def extract_and_process_locations_def
      geocoding_tool_def event_summarizer_def location_extractor_def location_key_def
      make_location_dict_def py_sort_reverse_def sort_key_def py_truthy_float_def
      confidence_order_def py_strip_def py_isspace_def lower_names py_isdigit_def py_isdigit_char_def py_any_digit_def
      non_location_words_def Let_def)

text \<open>
  C6, at the input where the code departs from it. \<open>sort_key\<close> takes an entry to have
  coordinates when its latitude and its longitude are truthy, and the float 0.0 is falsy.
  An entry of high confidence geocoded to latitude 0 and longitude 0 is therefore placed
  after an entry of low confidence, though both have coordinates: on the composite key of
  the specification the earlier entry is smaller than the later one.
\<close>

theorem zero_coordinate_sorted_last:
  "map (\<lambda>d. (dict_name d, dict_confidence d, dict_latitude d, dict_longitude d))
     (result (process_article_sync equator_services ''A buoy at Null Island, a flight from Paris.'')) =
     [(''Paris'', ''low'', Some 48, Some 2), (''Null Island'', ''high'', Some 0, Some 0)] \<and>
   map claimed_sort_key
     (result (process_article_sync equator_services ''A buoy at Null Island, a flight from Paris.'')) =
     [(1, 1, ''Paris''), (1, 3, ''Null Island'')] \<and>
   \<not> ((1::nat, 1::nat, ''Paris'') \<ge> (1, 3, ''Null Island''))"
  by (simp add: equator_services_def null_island_candidate_def low_paris_candidate_def
      claimed_sort_key_def
      process_article_sync_def extract_and_process_locations_def
      geocoding_tool_def event_summarizer_def location_extractor_def location_key_def
      make_location_dict_def py_sort_reverse_def sort_key_def py_truthy_float_def
      confidence_order_def py_strip_def py_isspace_def lower_names py_isdigit_def py_isdigit_char_def py_any_digit_def
      non_location_words_def Let_def)

section \<open>What the sort and the conversion loop guarantee\<close>

text \<open>
  The output is in descending order of \<open>sort_key\<close>, which is the composite key of the
  specification on every entry without a coordinate equal to zero. The entries kept by
  the conversion loop come from a subsequence of the candidates whose recorded keys
  (computed from the names as given) are pairwise different.
\<close>

lemma py_sort_reverse_sorted:
  "sorted_wrt (\<lambda>a b. f b \<le> f a) (py_sort_reverse f xs)"
proof -
  have "sorted (map f (List.sort_key f (rev xs)))" by (rule sorted_sort_key)
  then have "sorted_wrt (\<lambda>a b. f a \<le> f b) (List.sort_key f (rev xs))"
    by (simp add: sorted_wrt_map)
  then show ?thesis
    by (simp add: py_sort_reverse_def sorted_wrt_rev)
qed

lemma result_sorted_by_sort_key:
  "sorted_wrt (\<lambda>a b. sort_key b \<le> sort_key a) (result (process_article_sync svc text))"
proof -
  have "sorted_wrt (\<lambda>a b. sort_key b \<le> sort_key a) (take 50 (py_sort_reverse sort_key xs))" for xs
    using py_sort_reverse_sorted [of sort_key xs] by (rule sorted_wrt_take)
  then show ?thesis
    using py_sort_reverse_sorted [of sort_key]
    by (simp add: process_article_sync_def Let_def split: option.split)
qed

lemma claimed_sort_key_agrees:
  "dict_latitude d \<noteq> Some 0 \<Longrightarrow> dict_longitude d \<noteq> Some 0 \<Longrightarrow>
   claimed_sort_key d = sort_key d"
  by (cases "dict_latitude d"; cases "dict_longitude d")
     (simp_all add: claimed_sort_key_def sort_key_def py_truthy_float_def confidence_order_def)

lemma result_sorted_by_claimed_key:
  assumes "\<forall>d\<in>set (result (process_article_sync svc text)).
             dict_latitude d \<noteq> Some 0 \<and> dict_longitude d \<noteq> Some 0"
  shows "sorted_wrt (\<lambda>a b. claimed_sort_key b \<le> claimed_sort_key a)
           (result (process_article_sync svc text))"
proof -
  have "sorted_wrt (\<lambda>a b. sort_key b \<le> sort_key a) (result (process_article_sync svc text))"
    by (rule result_sorted_by_sort_key)
  moreover have "claimed_sort_key b \<le> claimed_sort_key a"
    if "a \<in> set (result (process_article_sync svc text))"
       "b \<in> set (result (process_article_sync svc text))" "sort_key b \<le> sort_key a" for a b
    using that assms claimed_sort_key_agrees [of a] claimed_sort_key_agrees [of b] by simp
  ultimately show ?thesis
    using sorted_wrt_mono_rel
      [of "result (process_article_sync svc text)" "\<lambda>a b. sort_key b \<le> sort_key a"
          "\<lambda>a b. claimed_sort_key b \<le> claimed_sort_key a"]
    by blast
qed

lemma convert_loop_kept:
  "\<exists>kept. convert_loop locs acc seen = acc @ map make_location_dict kept \<and>
      subseq kept locs \<and> distinct (map location_key kept) \<and>
      (\<forall>l\<in>set kept. location_key l \<notin> seen \<and> \<not> dropped_by_post_filter (name l))"
proof (induction locs arbitrary: acc seen)
  case Nil
  show ?case by simp
next
  case (Cons loc rest)
  show ?case
  proof (cases "location_key loc \<in> seen \<or> dropped_by_post_filter (name loc)")
    case True
    then have "convert_loop (loc # rest) acc seen = convert_loop rest acc seen"
      using convert_loop_step [of loc seen rest acc] by auto
    moreover from Cons [of acc seen] obtain kept where
      "convert_loop rest acc seen = acc @ map make_location_dict kept"
      "subseq kept rest" "distinct (map location_key kept)"
      "\<forall>l\<in>set kept. location_key l \<notin> seen \<and> \<not> dropped_by_post_filter (name l)"
      by blast
    ultimately show ?thesis
      by (intro exI [of _ kept]) (simp del: convert_loop.simps add: list_emb_Cons)
  next
    case False
    then have k: "location_key loc \<notin> seen" "\<not> dropped_by_post_filter (name loc)" by simp_all
    have step: "convert_loop (loc # rest) acc seen =
        convert_loop rest (acc @ [make_location_dict loc]) (insert (location_key loc) seen)"
      using convert_loop_step [OF k(1), of rest acc] k(2) by simp
    from Cons [of "acc @ [make_location_dict loc]" "insert (location_key loc) seen"]
    obtain kept where kept:
      "convert_loop rest (acc @ [make_location_dict loc]) (insert (location_key loc) seen) =
         (acc @ [make_location_dict loc]) @ map make_location_dict kept"
      "subseq kept rest" "distinct (map location_key kept)"
      "\<forall>l\<in>set kept. location_key l \<notin> insert (location_key loc) seen \<and>
          \<not> dropped_by_post_filter (name l)"
      by blast
    from kept(4) have "location_key loc \<notin> location_key ` set kept" by auto
    then show ?thesis
      unfolding step using kept k
      by (intro exI [of _ "loc # kept"]) (auto simp del: convert_loop.simps)
  qed
qed

end
